theory Spec2Isabelle
  imports Complex_Main "HOL-Library.Word" "HOL-Library.Sublist" "HOL-Library.Multiset"
begin

section \<open>Strings\<close>

text \<open>
  A JavaScript string is a sequence of 16-bit code units; \<open>length\<close>, \<open>slice\<close>,
  \<open>charCodeAt\<close> and the regular expressions of the source (none has the \<open>u\<close> flag) all
  work on code units.
\<close>

type_synonym jschar = "16 word"
type_synonym jsstring = "jschar list"

definition ustr :: "string \<Rightarrow> jsstring" where
  "ustr s = map of_char s"

text \<open>\<open>s.indexOf(pat)\<close>, \<open>s.includes(pat)\<close>, \<open>s.startsWith(pat)\<close>, \<open>s.endsWith(pat)\<close>.\<close>

fun indexOf :: "jsstring \<Rightarrow> jsstring \<Rightarrow> nat option" where
  "indexOf [] pat = (if pat = [] then Some 0 else None)"
| "indexOf (c # cs) pat =
     (if prefix pat (c # cs) then Some 0 else map_option Suc (indexOf cs pat))"

definition includes_str :: "jsstring \<Rightarrow> jsstring \<Rightarrow> bool" where
  "includes_str s pat \<longleftrightarrow> indexOf s pat \<noteq> None"

definition startsWith :: "jsstring \<Rightarrow> jsstring \<Rightarrow> bool" where
  "startsWith s pat \<longleftrightarrow> prefix pat s"

definition endsWith :: "jsstring \<Rightarrow> jsstring \<Rightarrow> bool" where
  "endsWith s pat \<longleftrightarrow> suffix pat s"

text \<open>\<open>s.replace(pat, rep)\<close> with a string pattern: the first occurrence only.\<close>

fun replaceFirst :: "jsstring \<Rightarrow> jsstring \<Rightarrow> jsstring \<Rightarrow> jsstring" where
  "replaceFirst [] pat rep = (if pat = [] then rep else [])"
| "replaceFirst (c # cs) pat rep =
     (if prefix pat (c # cs) then rep @ drop (length pat) (c # cs)
      else c # replaceFirst cs pat rep)"

text \<open>\<open>parts.join(sep)\<close>.\<close>

fun join :: "jsstring \<Rightarrow> jsstring list \<Rightarrow> jsstring" where
  "join sep [] = []"
| "join sep [x] = x"
| "join sep (x # y # ys) = x @ sep @ join sep (y # ys)"

text \<open>\<open>String(n)\<close> for a non-negative integer: its decimal digits.\<close>

fun showNat :: "nat \<Rightarrow> jsstring" where
  "showNat n = (if n < 10 then [of_nat (48 + n)]
                else showNat (n div 10) @ [of_nat (48 + n mod 10)])"

declare showNat.simps [simp del]

text \<open>
  The class \<open>\s\<close> of a regular expression and the characters removed by
  \<open>String.prototype.trim\<close> are the same set: WhiteSpace and LineTerminator of ECMAScript
  (TAB, LF, VT, FF, CR, SP, NBSP, U+1680, U+2000..U+200A, U+2028, U+2029, U+202F, U+205F,
  U+3000, U+FEFF).
\<close>

definition isWhiteSpace :: "jschar \<Rightarrow> bool" where
  "isWhiteSpace c \<longleftrightarrow>
     c = 9 \<or> c = 10 \<or> c = 11 \<or> c = 12 \<or> c = 13 \<or> c = 32 \<or> c = 160 \<or> c = 5760 \<or>
     (8192 \<le> c \<and> c \<le> 8202) \<or> c = 8232 \<or> c = 8233 \<or> c = 8239 \<or> c = 8287 \<or>
     c = 12288 \<or> c = 65279"

definition trim :: "jsstring \<Rightarrow> jsstring" where
  "trim s = rev (dropWhile isWhiteSpace (rev (dropWhile isWhiteSpace s)))"

text \<open>\<open>text.slice(start, end)\<close> for non-negative integer arguments.\<close>

definition slice_str :: "jsstring \<Rightarrow> nat \<Rightarrow> nat \<Rightarrow> jsstring" where
  "slice_str text start end = take (end - start) (drop start text)"

text \<open>\<open>s.lastIndexOf(c)\<close> for a one-character pattern: the last index, or -1.\<close>

fun lastIndexFrom :: "jsstring \<Rightarrow> jschar \<Rightarrow> nat \<Rightarrow> int \<Rightarrow> int" where
  "lastIndexFrom [] c i found = found"
| "lastIndexFrom (x # xs) c i found =
     lastIndexFrom xs c (i + 1) (if x = c then int i else found)"

definition lastIndexOf :: "jsstring \<Rightarrow> jschar \<Rightarrow> int" where
  "lastIndexOf s c = lastIndexFrom s c 0 (- 1)"

section \<open>Chunker (web/lib/rag.ts)\<close>

definition CHUNK_SIZE :: nat where "CHUNK_SIZE = 512"
definition CHUNK_OVERLAP :: nat where "CHUNK_OVERLAP = 50"

definition isSentenceEnd :: "jschar \<Rightarrow> bool" where
  "isSentenceEnd c \<longleftrightarrow> c = 46 \<or> c = 33 \<or> c = 63"

text \<open>
  The values of \<open>match.index\<close> of \<open>window.matchAll(/[.!?]\s/g)\<close>, in order, for the
  window from index \<open>i\<close> on: a match takes two code units and the search goes on behind it.
\<close>

fun sentenceMatches :: "jsstring \<Rightarrow> nat \<Rightarrow> nat list" where
  "sentenceMatches (c # d # rest) i =
     (if isSentenceEnd c \<and> isWhiteSpace d then i # sentenceMatches rest (i + 2)
      else sentenceMatches (d # rest) (i + 1))"
| "sentenceMatches [c] i = []"
| "sentenceMatches [] i = []"

text \<open>
  \<open>lastBoundary\<close> after the loop over the matches: \<open>None\<close> is \<open>null\<close>; each match
  overwrites it with \<open>match.index + match[0].length\<close>.
\<close>

definition lastBoundaryOf :: "jsstring \<Rightarrow> nat option" where
  "lastBoundaryOf window =
     foldl (\<lambda>lastBoundary m. Some (m + 2)) None (sentenceMatches window 0)"

text \<open>
  \<open>lastBoundary && lastBoundary > CHUNK_SIZE * 0.6\<close>: \<open>null\<close> and 0 are falsy;
  for an integer \<open>b\<close>, \<open>b > 512 * 0.6\<close> is \<open>10 * b > 512 * 6\<close>.
\<close>

definition findSentenceBoundary :: "jsstring \<Rightarrow> nat \<Rightarrow> nat \<Rightarrow> nat" where
  "findSentenceBoundary text start end =
     (let window = slice_str text start end;
          lastBoundary = lastBoundaryOf window;
          lastSpace = lastIndexOf window 32;
          fallback = (if lastSpace > 10 then start + nat lastSpace else end)
      in case lastBoundary of
           None \<Rightarrow> fallback
         | Some b \<Rightarrow> if b \<noteq> 0 \<and> 10 * b > CHUNK_SIZE * 6 then start + b else fallback)"

text \<open>
  The \<open>while\<close> loop of \<open>chunkText\<close> on its state (\<open>start\<close>, \<open>chunks\<close>). The loop may
  run forever, so the model is a partial function: \<open>None\<close> is "does not return".
\<close>

partial_function (option) chunkLoop ::
  "jsstring \<Rightarrow> nat \<Rightarrow> jsstring list \<Rightarrow> jsstring list option" where
  "chunkLoop text start chunks =
     (if start < length text then
        (let end0 = min (start + CHUNK_SIZE) (length text);
             end = (if end0 < length text then findSentenceBoundary text start end0 else end0);
             chunk = trim (slice_str text start end);
             chunks' = (if chunk \<noteq> [] then chunks @ [chunk] else chunks)
         in if end \<ge> length text then Some chunks'
            else chunkLoop text (nat (max 0 (int end - int CHUNK_OVERLAP))) chunks')
      else Some chunks)"

declare chunkLoop.simps [code]

definition chunkText :: "jsstring \<Rightarrow> jsstring list option" where
  "chunkText text = (if text = [] then Some [] else chunkLoop text 0 [])"


section \<open>Sections and policy labels (web/lib/rag.ts)\<close>

record doc =
  filename :: jsstring
  doc_text :: jsstring

record sectionRec =
  title :: jsstring
  body :: jsstring

record ChunkMetadata =
  source :: jsstring
  policyType :: jsstring
  sectionName :: jsstring

record Chunk =
  content :: jsstring
  metadata :: ChunkMetadata

record IndexedChunk = Chunk +
  embedding :: "real list option"

text \<open>A distance is a number: a real, or \<open>None\<close> for NaN.\<close>

record RetrievedChunk = Chunk +
  distance :: "real option"

definition isWordChar :: "jschar \<Rightarrow> bool" where
  "isWordChar c \<longleftrightarrow> (65 \<le> c \<and> c \<le> 90) \<or> (97 \<le> c \<and> c \<le> 122) \<or> (48 \<le> c \<and> c \<le> 57) \<or> c = 95"

definition toUpperCase :: "jschar \<Rightarrow> jschar" where
  "toUpperCase c = (if 97 \<le> c \<and> c \<le> 122 then c - 32 else c)"

text \<open>
  \<open>s.replace(/\b\w/g, (m) => m.toUpperCase())\<close>: a word character is replaced when the
  code unit before it is not a word character (or there is none). \<open>prevWord\<close> says
  whether the code unit before the rest of the string is a word character.
\<close>

fun titleCase :: "bool \<Rightarrow> jsstring \<Rightarrow> jsstring" where
  "titleCase prevWord [] = []"
| "titleCase prevWord (c # cs) =
     (if isWordChar c \<and> \<not> prevWord then toUpperCase c else c) # titleCase (isWordChar c) cs"

definition extractPolicyType :: "jsstring \<Rightarrow> jsstring" where
  "extractPolicyType fname =
     (let base = replaceFirst (replaceFirst fname (ustr ''_policy'') []) (ustr ''.txt'') []
      in titleCase False (trim (map (\<lambda>c. if c = 95 then 32 else c) base)))"

text \<open>\<open>text.split(/\r?\n/)\<close>; \<open>cur\<close> is the line read so far.\<close>

fun splitLines :: "jsstring \<Rightarrow> jsstring \<Rightarrow> jsstring list" where
  "splitLines (c # d # rest) cur =
     (if c = 13 \<and> d = 10 then cur # splitLines rest []
      else if c = 10 then cur # splitLines (d # rest) []
      else splitLines (d # rest) (cur @ [c]))"
| "splitLines [c] cur = (if c = 10 then [cur, []] else [cur @ [c]])"
| "splitLines [] cur = [cur]"

definition isHeader :: "jsstring \<Rightarrow> bool" where
  "isHeader line \<longleftrightarrow>
     startsWith line (ustr ''##'') \<or>
     (line \<noteq> [] \<and> list_all (\<lambda>c. (65 \<le> c \<and> c \<le> 90) \<or> isWhiteSpace c) line
        \<and> length line \<ge> 3 \<and> length line \<le> 80) \<or>
     (endsWith line (ustr '':'') \<and> length line \<le> 80)"

text \<open>
  The state of the loop over the lines: the sections pushed so far (title and body lines),
  \<open>currentTitle\<close> and \<open>buffer\<close>.
\<close>

type_synonym splitState = "(jsstring \<times> jsstring list) list \<times> jsstring \<times> jsstring list"

definition flush :: "splitState \<Rightarrow> splitState" where
  "flush st = (case st of (sections, currentTitle, buffer) \<Rightarrow>
     if buffer \<noteq> [] then (sections @ [(currentTitle, buffer)], currentTitle, [])
     else (sections, currentTitle, buffer))"

definition splitStep :: "splitState \<Rightarrow> jsstring \<Rightarrow> splitState" where
  "splitStep st rawLine =
     (let line = trim rawLine in
      case st of (sections, currentTitle, buffer) \<Rightarrow>
        if line = [] then (sections, currentTitle, buffer @ [[]])
        else if isHeader line then
          (case flush st of (sections', _, buffer') \<Rightarrow>
             (let t = trim (dropWhile (\<lambda>c. c = 35) line)
              in (sections', if t \<noteq> [] then t else ustr ''General'', buffer')))
        else (sections, currentTitle, buffer @ [rawLine]))"

definition splitIntoSections :: "jsstring \<Rightarrow> sectionRec list" where
  "splitIntoSections text =
     (case flush (foldl splitStep ([], ustr ''General'', []) (splitLines text [])) of
        (sections, _, _) \<Rightarrow>
          filter (\<lambda>s. length (body s) > 0)
            (map (\<lambda>(t, bodyLines). \<lparr>title = t, body = trim (join [10] bodyLines)\<rparr>) sections))"

section \<open>Cosine similarity and the corpus fingerprint (web/lib/rag.ts)\<close>

text \<open>
  Numbers are modelled as reals, with \<open>None\<close> for NaN: reading an array behind its end
  gives \<open>undefined\<close>, and arithmetic on it NaN. Rounding, overflow and infinities of IEEE
  doubles are not modelled.
\<close>

type_synonym jsnum = "real option"

definition elemAt :: "real list \<Rightarrow> nat \<Rightarrow> jsnum" where
  "elemAt xs i = (if i < length xs then Some (xs ! i) else None)"

definition num_add :: "jsnum \<Rightarrow> jsnum \<Rightarrow> jsnum" where
  "num_add x y = (case (x, y) of (Some a, Some b) \<Rightarrow> Some (a + b) | _ \<Rightarrow> None)"

definition num_mul :: "jsnum \<Rightarrow> jsnum \<Rightarrow> jsnum" where
  "num_mul x y = (case (x, y) of (Some a, Some b) \<Rightarrow> Some (a * b) | _ \<Rightarrow> None)"

text \<open>\<open>!x\<close> for a number: true for 0 and for NaN.\<close>

definition falsy :: "jsnum \<Rightarrow> bool" where
  "falsy x \<longleftrightarrow> x = None \<or> x = Some 0"

datatype error =
    DataDirNotFound
  | NoTxtFiles
  | MissingApiKey
  | ProviderError jsstring
  | TypeError
  | DivisionByZero
  | NotANumber

text \<open>
  The loop of \<open>cosineSimilarity\<close> over \<open>i = 0 .. a.length - 1\<close>, on (\<open>dot\<close>, \<open>normA\<close>,
  \<open>normB\<close>).
\<close>

definition cosineSums :: "real list \<Rightarrow> real list \<Rightarrow> jsnum \<times> jsnum \<times> jsnum" where
  "cosineSums a b =
     foldl (\<lambda>(dot, normA, normB) i.
              (num_add dot (num_mul (elemAt a i) (elemAt b i)),
               num_add normA (num_mul (elemAt a i) (elemAt a i)),
               num_add normB (num_mul (elemAt b i) (elemAt b i))))
       (Some 0, Some 0, Some 0) [0..<length a]"

text \<open>
  A division by zero gives Infinity or NaN in JavaScript; the model makes it the fault
  \<open>DivisionByZero\<close> (and a NaN operand the fault \<open>NotANumber\<close>), so that its absence
  is a statement about \<open>cosineSimilarity\<close>.
\<close>

definition divide_checked :: "jsnum \<Rightarrow> jsnum \<Rightarrow> error + real" where
  "divide_checked x y =
     (case (x, y) of
        (Some p, Some q) \<Rightarrow> if q = 0 then Inl DivisionByZero else Inr (p / q)
      | _ \<Rightarrow> Inl NotANumber)"

definition cosineSimilarity :: "real list \<Rightarrow> real list \<Rightarrow> error + real" where
  "cosineSimilarity a b =
     (case cosineSums a b of (dot, normA, normB) \<Rightarrow>
        if falsy normA \<or> falsy normB then Inr 0
        else divide_checked dot
               (num_mul (map_option sqrt normA) (map_option sqrt normB)))"

text \<open>
  \<open>hashDocs\<close>: \<open>(hash * 31 + code) >>> 0\<close> keeps the low 32 bits; the product and the
  sum stay below \<open>2^53\<close>, so the double arithmetic is exact and the step is arithmetic on
  32-bit words.
\<close>

definition hashDocs :: "doc list \<Rightarrow> jsstring" where
  "hashDocs docs =
     (let content = join (ustr ''|'')
                      (map (\<lambda>d. filename d @ ustr '':'' @ showNat (length (doc_text d))) docs);
          hash = foldl (\<lambda>(h :: 32 word) c. h * 31 + ucast c) 0 content
      in showNat (unat hash))"

text \<open>
  \<open>loadPolicyDocs\<close> reads the file system: each of the two candidate paths is either not
  a directory (\<open>None\<close>) or a directory with its files (name and content).
\<close>

definition loadPolicyDocs :: "(jsstring \<times> jsstring) list option list \<Rightarrow> error + doc list" where
  "loadPolicyDocs candidates =
     (case List.map_filter id candidates of
        [] \<Rightarrow> Inl DataDirNotFound
      | dataDir # _ \<Rightarrow>
          (let files = filter (\<lambda>(f, t). endsWith f (ustr ''.txt'')) dataDir
           in if length files = 0 then Inl NoTxtFiles
              else Inr (map (\<lambda>(f, t). \<lparr>filename = f, doc_text = t\<rparr>) files)))"

section \<open>Index cache and retrieval (web/lib/rag.ts)\<close>

text \<open>
  The environment of a request: the candidate data directories, the API key, and the
  embedding provider. \<open>embeddingsCreate n batch\<close> is the outcome of the call of
  \<open>openai.embeddings.create\<close> on \<open>batch\<close> after \<open>n\<close> earlier calls: the message of
  the error thrown, or the embeddings of \<open>response.data\<close>.

  The last two fields are the machine. \<open>retrieve\<close> computes its distances in double
  arithmetic, which rounds every operation and overflows to Infinity, so the double that
  \<open>1 - cosineSimilarity(a, b)\<close> evaluates to is not the real number
  \<open>1 - cosineSimilarity a b\<close>: two chunks at the same exact distance may get different
  doubles, and an overflow gives NaN. \<open>distanceOf a b\<close> is that double (a finite double
  is a real; \<open>None\<close> is NaN; an infinite value is not modelled), for any arithmetic.
  \<open>sortEngine\<close> is the order that the engine's \<open>Array.prototype.sort\<close> gives when the
  comparator is not consistent, which ECMAScript leaves to the implementation.
\<close>

record env =
  dataDirs :: "(jsstring \<times> jsstring) list option list"
  OPENAI_API_KEY :: "jsstring option"
  embeddingsCreate :: "nat \<Rightarrow> jsstring list \<Rightarrow> jsstring + real list list"
  distanceOf :: "real list \<Rightarrow> real list \<Rightarrow> real option"
  sortEngine :: "(IndexedChunk \<times> real option) list \<Rightarrow> (IndexedChunk \<times> real option) list"

text \<open>
  The module state. An index array lives in \<open>arrays\<close> under a reference; \<open>cachedIndex\<close>
  holds a reference (or \<open>null\<close>), and \<open>getIndex\<close> returns a reference. \<open>embedLog\<close>
  records the batches sent to the embedding provider and \<open>fsReads\<close> counts the calls
  of \<open>loadPolicyDocs\<close>.
\<close>

record world =
  arrays :: "nat \<Rightarrow> IndexedChunk list option"
  nextRef :: nat
  cachedIndex :: "nat option"
  cachedDocsHash :: "jsstring option"
  embedLog :: "jsstring list list"
  fsReads :: nat

definition batchSize :: nat where "batchSize = 64"

function embedBatches ::
  "env \<Rightarrow> jsstring list \<Rightarrow> real list list \<Rightarrow> world \<Rightarrow> (error + real list list) \<times> world" where
  "embedBatches e texts embeddings w =
     (if texts = [] then (Inr embeddings, w)
      else
        (let batch = take batchSize texts;
             w' = w\<lparr>embedLog := embedLog w @ [batch]\<rparr>
         in case embeddingsCreate e (length (embedLog w)) batch of
              Inl msg \<Rightarrow> (Inl (ProviderError msg), w')
            | Inr data \<Rightarrow> embedBatches e (drop batchSize texts) (embeddings @ data) w'))"
  by pat_completeness auto
termination
  by (relation "measure (\<lambda>(e, texts, embeddings, w). length texts)") (auto simp: batchSize_def)

declare embedBatches.simps [simp del]

definition embedTexts :: "env \<Rightarrow> jsstring list \<Rightarrow> world \<Rightarrow> (error + real list list) \<times> world" where
  "embedTexts e texts w =
     (if OPENAI_API_KEY e = None \<or> OPENAI_API_KEY e = Some [] then (Inl MissingApiKey, w)
      else embedBatches e texts [] w)"

text \<open>
  The chunks of one document and of all documents, in order. \<open>chunkText\<close> may not return,
  and then neither does \<open>getIndex\<close>.
\<close>

definition docChunks :: "doc \<Rightarrow> Chunk list option" where
  "docChunks d =
     (let policyType = extractPolicyType (filename d);
          sections = splitIntoSections (doc_text d)
      in map_option concat (those (map (\<lambda>sec.
           map_option (map (\<lambda>c. \<lparr>content = c,
                 metadata = \<lparr>source = filename d, policyType = policyType,
                             sectionName = title sec\<rparr>\<rparr>))
             (chunkText (body sec))) sections)))"

definition allChunks :: "doc list \<Rightarrow> Chunk list option" where
  "allChunks docs = map_option concat (those (map docChunks docs))"

definition nthOpt :: "'a list \<Rightarrow> nat \<Rightarrow> 'a option" where
  "nthOpt xs i = (if i < length xs then Some (xs ! i) else None)"

definition getIndex :: "env \<Rightarrow> world \<Rightarrow> ((error + nat) \<times> world) option" where
  "getIndex e w =
     (let w0 = w\<lparr>fsReads := fsReads w + 1\<rparr> in
      case loadPolicyDocs (dataDirs e) of
        Inl err \<Rightarrow> Some (Inl err, w0)
      | Inr docs \<Rightarrow>
         (let docsHash = hashDocs docs in
          if cachedIndex w0 \<noteq> None \<and> cachedDocsHash w0 = Some docsHash
          then Some (Inr (the (cachedIndex w0)), w0)
          else
            (case allChunks docs of
               None \<Rightarrow> None
             | Some chunks \<Rightarrow>
                (case embedTexts e (map content chunks) w0 of
                   (Inl err, w1) \<Rightarrow> Some (Inl err, w1)
                 | (Inr embeddings, w1) \<Rightarrow>
                    (let index = map (\<lambda>(chunk, idx).
                                   \<lparr>content = content chunk, metadata = metadata chunk,
                                    embedding = nthOpt embeddings idx\<rparr>)
                                 (zip chunks [0..<length chunks]);
                         r = nextRef w1
                     in Some (Inr r,
                          w1\<lparr>arrays := (arrays w1)(r \<mapsto> index), nextRef := r + 1,
                             cachedIndex := Some r, cachedDocsHash := Some docsHash\<rparr>))))))"

definition DISTANCE_THRESHOLD :: real where "DISTANCE_THRESHOLD = 0.8"

text \<open>
  \<open>index.map((chunk) => ...)\<close>: each chunk with its distance. \<open>queryEmbedding\<close> is
  \<open>undefined\<close> when the provider returned no embedding, and \<open>chunk.embedding\<close> when it
  returned too few: \<open>a.length\<close> on \<open>undefined\<close> and \<open>b[i]\<close> on \<open>undefined\<close> throw a
  TypeError (the latter only when the loop runs, that is when \<open>a\<close> is not empty; when
  \<open>a\<close> is empty \<open>cosineSimilarity\<close> returns 0 and the distance is \<open>1 - 0\<close>, which is
  exact). Otherwise the distance is the double that the machine computes.
\<close>

definition scoreChunk ::
  "env \<Rightarrow> real list option \<Rightarrow> IndexedChunk \<Rightarrow> error + (IndexedChunk \<times> real option)" where
  "scoreChunk e queryEmbedding chunk =
     (case queryEmbedding of
        None \<Rightarrow> Inl TypeError
      | Some a \<Rightarrow>
         (case embedding chunk of
            None \<Rightarrow> if a = [] then Inr (chunk, Some 1) else Inl TypeError
          | Some b \<Rightarrow> Inr (chunk, distanceOf e a b)))"

fun scoreAll ::
  "env \<Rightarrow> real list option \<Rightarrow> IndexedChunk list \<Rightarrow> error + (IndexedChunk \<times> real option) list" where
  "scoreAll e q [] = Inr []"
| "scoreAll e q (chunk # rest) =
     (case scoreChunk e q chunk of
        Inl err \<Rightarrow> Inl err
      | Inr s \<Rightarrow> (case scoreAll e q rest of Inl err \<Rightarrow> Inl err | Inr ss \<Rightarrow> Inr (s # ss)))"

text \<open>\<open>xs.slice(0, k)\<close> for an integer \<open>k\<close>: a negative \<open>k\<close> counts from the end.\<close>

definition sliceTo :: "'a list \<Rightarrow> int \<Rightarrow> 'a list" where
  "sliceTo xs k = (if k < 0 then take (nat (int (length xs) + k)) xs else take (nat k) xs)"

definition toRetrieved :: "IndexedChunk \<times> real option \<Rightarrow> RetrievedChunk" where
  "toRetrieved item = \<lparr>content = content (fst item), metadata = metadata (fst item),
                        distance = snd item\<rparr>"

text \<open>
  The comparator \<open>(a, b) => a.distance - b.distance\<close> gives 0 or NaN, which
  \<open>sort\<close> takes for 0, when one of the distances is NaN or both are the same double.
\<close>

definition comparesEqual :: "real option \<Rightarrow> real option \<Rightarrow> bool" where
  "comparesEqual x y \<longleftrightarrow> x = None \<or> y = None \<or> x = y"

text \<open>
  \<open>scored.sort((a, b) => a.distance - b.distance)\<close>. \<open>Array.prototype.sort\<close> is a
  stable sort when the comparator is consistent. Without a NaN the comparator is the order
  of the doubles, and the result is the stable sort by distance. With a NaN the
  comparator is consistent only if it gives 0 on every pair, and then the stable sort
  leaves the array as it is; otherwise the order is the engine's.
\<close>

definition sortByDistance ::
  "env \<Rightarrow> (IndexedChunk \<times> real option) list \<Rightarrow> (IndexedChunk \<times> real option) list" where
  "sortByDistance e scored =
     (if \<forall>s\<in>set scored. snd s \<noteq> None then sort_key (\<lambda>s. the (snd s)) scored
      else if \<forall>s\<in>set scored. \<forall>t\<in>set scored. comparesEqual (snd s) (snd t) then scored
      else sortEngine e scored)"

text \<open>\<open>x > y\<close> on numbers: false when \<open>x\<close> is NaN.\<close>

definition num_gt :: "real option \<Rightarrow> real \<Rightarrow> bool" where
  "num_gt x y = (case x of Some a \<Rightarrow> a > y | None \<Rightarrow> False)"

text \<open>The end of \<open>retrieve\<close>: the sort, the first \<open>topK\<close>, and the cutoff.\<close>

definition selectTop ::
  "env \<Rightarrow> (IndexedChunk \<times> real option) list \<Rightarrow> int \<Rightarrow> RetrievedChunk list" where
  "selectTop e scored topK =
     (let sorted = sortByDistance e scored;
          top = sliceTo sorted topK
      in if top = [] \<or> num_gt (snd (hd top)) DISTANCE_THRESHOLD then []
         else map toRetrieved top)"

definition retrieve ::
  "env \<Rightarrow> jsstring \<Rightarrow> int \<Rightarrow> world \<Rightarrow> ((error + RetrievedChunk list) \<times> world) option" where
  "retrieve e query topK w =
     (if trim query = [] then Some (Inr [], w)
      else
        (case getIndex e w of
           None \<Rightarrow> None
         | Some (Inl err, w1) \<Rightarrow> Some (Inl err, w1)
         | Some (Inr r, w1) \<Rightarrow>
            (let index = (case arrays w1 r of Some xs \<Rightarrow> xs | None \<Rightarrow> [])
             in if length index = 0 then Some (Inr [], w1)
                else
                  (case embedTexts e [query] w1 of
                     (Inl err, w2) \<Rightarrow> Some (Inl err, w2)
                   | (Inr embs, w2) \<Rightarrow>
                      (case scoreAll e (nthOpt embs 0) index of
                         Inl err \<Rightarrow> Some (Inl err, w2)
                       | Inr scored \<Rightarrow> Some (Inr (selectTop e scored topK), w2))))))"

datatype confidenceLevel = High | Medium | Low

text \<open>\<open>x < y\<close> on numbers: false when \<open>x\<close> is NaN.\<close>

definition num_lt :: "jsnum \<Rightarrow> real \<Rightarrow> bool" where
  "num_lt x y = (case x of Some a \<Rightarrow> a < y | None \<Rightarrow> False)"

definition estimateConfidence :: "jsnum \<Rightarrow> confidenceLevel" where
  "estimateConfidence d =
     (if num_lt d 0.35 then High else if num_lt d 0.55 then Medium else Low)"


section \<open>Response parsing and provider failover (the chat route handler)\<close>

record parsedResponse =
  answer :: jsstring
  sources :: jsstring
  confidence :: jsstring

record response = parsedResponse +
  contextChunks :: "RetrievedChunk list"

text \<open>
  \<open>extract(tag)\<close>: the first match of \<open><tag>([\s\S]*?)</tag>\<close>. The leftmost match
  starts at the first \<open><tag>\<close> that has a \<open></tag>\<close> behind it, which is the first
  \<open><tag>\<close> of the text if any has one; the lazy group ends at the first \<open></tag>\<close>
  behind it.
\<close>

definition extractTag :: "jsstring \<Rightarrow> jsstring \<Rightarrow> jsstring" where
  "extractTag text tag =
     (let openTag = ustr ''<'' @ tag @ ustr ''>'';
          closeTag = ustr ''</'' @ tag @ ustr ''>''
      in case indexOf text openTag of
           None \<Rightarrow> []
         | Some i \<Rightarrow>
            (let rest = drop (i + length openTag) text
             in case indexOf rest closeTag of
                  None \<Rightarrow> []
                | Some j \<Rightarrow> trim (take j rest)))"

definition parseResponse :: "jsstring \<Rightarrow> parsedResponse" where
  "parseResponse text =
     \<lparr>answer = (if extractTag text (ustr ''answer'') \<noteq> [] then extractTag text (ustr ''answer'')
                else trim text),
      sources = extractTag text (ustr ''sources''),
      confidence = extractTag text (ustr ''confidence'')\<rparr>"

definition normalizeSources :: "RetrievedChunk list \<Rightarrow> jsstring" where
  "normalizeSources chunks =
     join (ustr ''; '')
       (foldl (\<lambda>entries chunk.
                 (let entry = source (metadata chunk) @ ustr '' ('' @
                              sectionName (metadata chunk) @ ustr '')''
                  in if entry \<in> set entries then entries else entries @ [entry]))
          [] chunks)"

definition is429 :: "jsstring \<Rightarrow> bool" where
  "is429 msg \<longleftrightarrow> includes_str msg (ustr ''429'') \<or> includes_str msg (ustr ''quota'')"

text \<open>
  The outcome of one call of \<open>client.chat.completions.create\<close> (with the construction of
  the client): \<open>Completed content\<close> with the content of the first choice, \<open>None\<close> when it
  is not a string, or \<open>Failed msg\<close> with \<open>String(err)\<close> of the error thrown.
\<close>

datatype outcome = Completed "jsstring option" | Failed jsstring

text \<open>
  The state of the \<open>for\<close> loop over \<open>chatConfigs\<close>: \<open>text\<close>, \<open>lastErr\<close>
  (\<open>None\<close> is \<open>undefined\<close> or \<open>null\<close>) and the configurations called so far.
\<close>

record 'c loopState =
  replyText :: jsstring
  lastErr :: "jsstring option"
  called :: "'c list"

text \<open>
  The loop from its \<open>i\<close>-th iteration on; \<open>n\<close> is \<open>chatConfigs.length\<close>. The
  configurations are distinct objects, so \<open>chatConfigs.indexOf(cfg)\<close> is the position
  \<open>i\<close> of the iteration. The first component of the result is the error thrown out of
  the loop, if any.
\<close>

fun tryConfigs ::
  "('c \<Rightarrow> outcome) \<Rightarrow> nat \<Rightarrow> nat \<Rightarrow> 'c list \<Rightarrow> 'c loopState \<Rightarrow> jsstring option \<times> 'c loopState" where
  "tryConfigs call n i [] st = (None, st)"
| "tryConfigs call n i (cfg # rest) st =
     (case call cfg of
        Completed c \<Rightarrow>
          (None, st\<lparr>replyText := (case c of Some s \<Rightarrow> s | None \<Rightarrow> []),
                     lastErr := None, called := called st @ [cfg]\<rparr>)
      | Failed err \<Rightarrow>
          (let st' = st\<lparr>lastErr := Some err, called := called st @ [cfg]\<rparr>
           in if \<not> is429 err then (Some err, st')
              else if int i \<ge> int n - 1 then (Some err, st')
              else tryConfigs call n (i + 1) rest st'))"

text \<open>
  The loop and \<open>if (lastErr) throw lastErr\<close>: the error that reaches the outer
  \<open>catch\<close>, or \<open>text\<close>; with the configurations called.
\<close>

definition runFailover :: "('c \<Rightarrow> outcome) \<Rightarrow> 'c list \<Rightarrow> (jsstring + jsstring) \<times> 'c list" where
  "runFailover call chatConfigs =
     (case tryConfigs call (length chatConfigs) 0 chatConfigs
             \<lparr>replyText = [], lastErr = None, called = []\<rparr> of
        (Some err, st) \<Rightarrow> (Inl err, called st)
      | (None, st) \<Rightarrow>
          (case lastErr st of
             Some err \<Rightarrow> (Inl err, called st)
           | None \<Rightarrow> (Inr (replyText st), called st)))"

definition levelName :: "confidenceLevel \<Rightarrow> jsstring" where
  "levelName l = (case l of High \<Rightarrow> ustr ''High'' | Medium \<Rightarrow> ustr ''Medium'' | Low \<Rightarrow> ustr ''Low'')"

text \<open>
  The part of \<open>POST\<close> behind the retrieval, for a non-empty list of retrieved chunks:
  the failover loop, the parsing and the JSON body of the answer.
\<close>

definition POST_generation ::
  "('c \<Rightarrow> outcome) \<Rightarrow> 'c list \<Rightarrow> RetrievedChunk list \<Rightarrow> (jsstring + response) \<times> 'c list" where
  "POST_generation call chatConfigs chunks =
     (case runFailover call chatConfigs of
        (Inl err, calls) \<Rightarrow> (Inl err, calls)
      | (Inr text, calls) \<Rightarrow>
          (let parsed = parseResponse text;
               topDistance = (case chunks of [] \<Rightarrow> Some 1 | c # _ \<Rightarrow> distance c);
               fallbackSources = normalizeSources chunks
           in (Inr \<lparr>answer = answer parsed,
                    sources = (if sources parsed \<noteq> [] then sources parsed else fallbackSources),
                    confidence = (if confidence parsed \<noteq> [] then confidence parsed
                                  else levelName (estimateConfidence topDistance)),
                    contextChunks = chunks\<rparr>, calls)))"


section \<open>Notions used to state the properties\<close>

text \<open>
  A text of 513 code units: eleven letters, a space, and 501 letters.
\<close>

definition loopingText :: jsstring where
  "loopingText = replicate 11 97 @ [32] @ replicate 501 97"

text \<open>
  A section body of 602 code units: 400 letters, a full stop, a space, and 200 letters.
\<close>

definition seamText :: jsstring where
  "seamText = replicate 400 97 @ [46, 32] @ replicate 200 97"

text \<open>
  Two section bodies that differ in the number of spaces between two words of 300 letters:
  60 and 61.
\<close>

definition gapTextA :: jsstring where
  "gapTextA = replicate 300 97 @ replicate 60 32 @ replicate 300 98"

definition gapTextB :: jsstring where
  "gapTextB = replicate 300 97 @ replicate 61 32 @ replicate 300 98"

text \<open>
  The chunks in order with the overlapped regions removed: every chunk behind the first
  loses its first \<open>CHUNK_OVERLAP\<close> code units.
\<close>

fun removeOverlaps :: "jsstring list \<Rightarrow> jsstring" where
  "removeOverlaps [] = []"
| "removeOverlaps (c # cs) = c @ concat (map (drop CHUNK_OVERLAP) cs)"

text \<open>
  \<open>windowChain len s ws\<close>: \<open>ws\<close> are the windows (start, end) of a run of the loop
  from \<open>start = s\<close> on a text of length \<open>len\<close>: each window is non-empty and at most
  \<open>CHUNK_SIZE\<close> long, the next one starts \<open>CHUNK_OVERLAP\<close> before the end of this one
  (at 0 if that is negative), and the last one ends at the end of the text.
\<close>

fun windowChain :: "nat \<Rightarrow> nat \<Rightarrow> (nat \<times> nat) list \<Rightarrow> bool" where
  "windowChain len s [] = (len \<le> s)"
| "windowChain len s ((a, b) # ws) =
     (a = s \<and> s < b \<and> b \<le> s + CHUNK_SIZE \<and> b \<le> len \<and>
      (if b = len then ws = [] else windowChain len (b - CHUNK_OVERLAP) ws))"

text \<open>
  The untrimmed slices of the windows in order, each without the part that the windows
  before it cover already (\<open>p\<close> is the end of that part).
\<close>

fun uncovered :: "jsstring \<Rightarrow> nat \<Rightarrow> (nat \<times> nat) list \<Rightarrow> jsstring" where
  "uncovered text p [] = []"
| "uncovered text p ((a, b) # ws) =
     drop (p - a) (slice_str text a b) @ uncovered text (max p b) ws"

text \<open>The chunks pushed for the windows: the trimmed slices that are not empty.\<close>

definition chunksOf :: "jsstring \<Rightarrow> (nat \<times> nat) list \<Rightarrow> jsstring list" where
  "chunksOf text ws = filter (\<lambda>c. c \<noteq> []) (map (\<lambda>(a, b). trim (slice_str text a b)) ws)"

definition goodChunk :: "jsstring \<Rightarrow> bool" where
  "goodChunk c \<longleftrightarrow>
     c \<noteq> [] \<and> \<not> isWhiteSpace (hd c) \<and> \<not> isWhiteSpace (last c) \<and> length c \<le> CHUNK_SIZE"


text \<open>
  A small corpus for concrete runs: a data directory with two policy files and a file
  that is not a \<open>.txt\<close> file, a provider that embeds the shipping sentence as (0, 1)
  and every other text as (1, 0), and the module state at load time.
\<close>

definition demoFiles :: "(jsstring \<times> jsstring) list" where
  "demoFiles = [(ustr ''refund_policy.txt'', ustr ''Refunds take five days.''),
                (ustr ''notes.md'', ustr ''ignored''),
                (ustr ''shipping_policy.txt'', ustr ''Shipping is free.'')]"

definition demoEmbed :: "jsstring \<Rightarrow> real list" where
  "demoEmbed t = (if t = ustr ''Shipping is free.'' then [0, 1] else [1, 0])"

text \<open>
  On the vectors (1, 0) and (0, 1) the double arithmetic of \<open>cosineSimilarity\<close> is
  exact: every product, sum, square root and quotient is 0 or 1.
\<close>

definition demoDistance :: "real list \<Rightarrow> real list \<Rightarrow> real option" where
  "demoDistance a b = (case cosineSimilarity a b of Inr s \<Rightarrow> Some (1 - s) | Inl err \<Rightarrow> None)"

definition demoEnv :: env where
  "demoEnv = \<lparr>dataDirs = [None, Some demoFiles], OPENAI_API_KEY = Some (ustr ''sk-test''),
              embeddingsCreate = (\<lambda>n batch. Inr (map demoEmbed batch)),
              distanceOf = demoDistance, sortEngine = (\<lambda>scored. scored)\<rparr>"

definition initialWorld :: world where
  "initialWorld = \<lparr>arrays = (\<lambda>r. None), nextRef = 0, cachedIndex = None,
                   cachedDocsHash = None, embedLog = [], fsReads = 0\<rparr>"

definition demoDocs :: "doc list" where
  "demoDocs = [\<lparr>filename = ustr ''refund_policy.txt'', doc_text = ustr ''Refunds take five days.''\<rparr>,
               \<lparr>filename = ustr ''shipping_policy.txt'', doc_text = ustr ''Shipping is free.''\<rparr>]"

definition demoChunks :: "Chunk list" where
  "demoChunks =
     [\<lparr>content = ustr ''Refunds take five days.'',
       metadata = \<lparr>source = ustr ''refund_policy.txt'', policyType = ustr ''Refund'',
                   sectionName = ustr ''General''\<rparr>\<rparr>,
      \<lparr>content = ustr ''Shipping is free.'',
       metadata = \<lparr>source = ustr ''shipping_policy.txt'', policyType = ustr ''Shipping'',
                   sectionName = ustr ''General''\<rparr>\<rparr>]"

definition demoIndex :: "IndexedChunk list" where
  "demoIndex =
     [\<lparr>content = ustr ''Refunds take five days.'',
       metadata = \<lparr>source = ustr ''refund_policy.txt'', policyType = ustr ''Refund'',
                   sectionName = ustr ''General''\<rparr>, embedding = Some [1, 0]\<rparr>,
      \<lparr>content = ustr ''Shipping is free.'',
       metadata = \<lparr>source = ustr ''shipping_policy.txt'', policyType = ustr ''Shipping'',
                   sectionName = ustr ''General''\<rparr>, embedding = Some [0, 1]\<rparr>]"

text \<open>The module state after the first \<open>getIndex\<close> on the small corpus.\<close>

definition demoWorld :: world where
  "demoWorld = \<lparr>arrays = (\<lambda>r. None)(0 \<mapsto> demoIndex), nextRef = 1, cachedIndex = Some 0,
                cachedDocsHash = Some (hashDocs demoDocs),
                embedLog = [[ustr ''Refunds take five days.'', ustr ''Shipping is free.'']],
                fsReads = 1\<rparr>"


definition demoQuery :: jsstring where
  "demoQuery = ustr ''How long do refunds take?''"

definition demoScored :: "(IndexedChunk \<times> real option) list" where
  "demoScored = zip demoIndex [Some 0, Some 1]"

definition demoResult :: "RetrievedChunk list" where
  "demoResult =
     [\<lparr>content = ustr ''Refunds take five days.'',
       metadata = \<lparr>source = ustr ''refund_policy.txt'', policyType = ustr ''Refund'',
                   sectionName = ustr ''General''\<rparr>, distance = Some 0\<rparr>,
      \<lparr>content = ustr ''Shipping is free.'',
       metadata = \<lparr>source = ustr ''shipping_policy.txt'', policyType = ustr ''Shipping'',
                   sectionName = ustr ''General''\<rparr>, distance = Some 1\<rparr>]"

text \<open>
  \<open>ranked scored topK result\<close>, for distances without a NaN: \<open>result\<close> is the empty
  list when there is no chunk, when \<open>topK\<close> is 0 or when the smallest distance exceeds
  the cutoff, and otherwise it is the first \<open>topK\<close> chunks (all, if there are fewer)
  of \<open>ordered\<close>, where \<open>ordered\<close> is \<open>scored\<close> rearranged ascending by distance with
  the chunks of equal distance in the order they have in \<open>scored\<close> (the order of the
  index). There is one such list \<open>ordered\<close>, so \<open>ranked\<close> fixes the result.
\<close>

definition ranked ::
  "(IndexedChunk \<times> real option) list \<Rightarrow> int \<Rightarrow> RetrievedChunk list \<Rightarrow> bool" where
  "ranked scored topK result \<longleftrightarrow>
     (\<exists>ordered.
        mset ordered = mset scored \<and>
        sorted (map (\<lambda>s. the (snd s)) ordered) \<and>
        (\<forall>d. filter (\<lambda>s. snd s = d) ordered = filter (\<lambda>s. snd s = d) scored) \<and>
        result =
          (if scored = [] \<or> topK = 0
               \<or> Min ((\<lambda>s. the (snd s)) ` set scored) > DISTANCE_THRESHOLD
           then [] else map toRetrieved (take (nat topK) ordered)))"

text \<open>Providers for concrete runs of the failover loop.\<close>

definition demoCall :: "nat \<Rightarrow> outcome" where
  "demoCall c = (if c = 0 then Failed (ustr ''Error: 429 Too Many Requests'')
                 else if c = 1 then Failed (ustr ''insufficient_quota'')
                 else if c = 2 then Completed (Some (ustr ''<answer>ok</answer>''))
                 else if c = 3 then Failed (ustr ''ECONNREFUSED'')
                 else Completed (Some (ustr ''<answer> </answer> Five days.'')))"

text \<open>
  The three sums of \<open>cosineSimilarity\<close> after \<open>n\<close> iterations, in closed form: behind the
  end of \<open>b\<close> the products with \<open>b[i]\<close> are NaN.
\<close>

definition sumsUpto :: "real list \<Rightarrow> real list \<Rightarrow> nat \<Rightarrow> jsnum \<times> jsnum \<times> jsnum" where
  "sumsUpto a b n =
     (if n \<le> length b
      then (Some (\<Sum>i<n. a ! i * b ! i), Some (\<Sum>i<n. a ! i * a ! i), Some (\<Sum>i<n. b ! i * b ! i))
      else (None, Some (\<Sum>i<n. a ! i * a ! i), None))"

section \<open>The chunker: bounds, divergence, windows\<close>

lemma sentenceMatches_bound:
  "m \<in> set (sentenceMatches xs i) \<Longrightarrow> i \<le> m \<and> m + 2 \<le> i + length xs"
  by (induction xs i rule: sentenceMatches.induct) (auto split: if_splits)

lemma foldl_last_some:
  "foldl (\<lambda>b m. Some (g m)) a ms = (if ms = [] then a else Some (g (last ms)))"
  by (induction ms arbitrary: a) auto

lemma lastBoundaryOf_bound:
  assumes "lastBoundaryOf window = Some b" shows "2 \<le> b \<and> b \<le> length window"
proof -
  let ?ms = "sentenceMatches window 0"
  from assms have ne: "?ms \<noteq> []" and b: "b = last ?ms + 2"
    by (auto simp: lastBoundaryOf_def foldl_last_some split: if_splits)
  from ne have "last ?ms \<in> set ?ms" by simp
  from sentenceMatches_bound[OF this] b show ?thesis by simp
qed

lemma lastIndexFrom_bound:
  "found < int i \<Longrightarrow> lastIndexFrom xs c i found < int i + int (length xs)"
proof (induction xs arbitrary: i found)
  case Nil
  then show ?case by simp
next
  case (Cons x xs)
  have "(if x = c then int i else found) < int (i + 1)" using Cons.prems by simp
  from Cons.IH[OF this] show ?case by simp
qed

lemma lastIndexOf_bound: "lastIndexOf s c < int (length s)"
  using lastIndexFrom_bound[of "-1" 0 s c] by (simp add: lastIndexOf_def)

lemma findSentenceBoundary_range:
  assumes "start < end" "end \<le> length text"
  shows "start < findSentenceBoundary text start end \<and> findSentenceBoundary text start end \<le> end"
proof -
  let ?w = "slice_str text start end"
  have len: "length ?w = end - start" using assms by (simp add: slice_str_def)
  have sp: "lastIndexOf ?w 32 < int (end - start)" using lastIndexOf_bound[of ?w 32] len by simp
  have bd: "lastBoundaryOf ?w = Some b \<Longrightarrow> b \<le> end - start" for b
    using lastBoundaryOf_bound[of ?w b] len by simp
  show ?thesis using assms sp bd
    by (auto simp: findSentenceBoundary_def Let_def split: option.splits)
qed

lemma trim_length: "length (trim s) \<le> length s"
proof -
  have "length (dropWhile isWhiteSpace (rev (dropWhile isWhiteSpace s))) \<le> length (rev (dropWhile isWhiteSpace s))"
    by (rule length_dropWhile_le)
  also have "\<dots> \<le> length s" by (simp add: length_dropWhile_le)
  finally show ?thesis by (simp add: trim_def)
qed

lemma last_dropWhile_ne: "dropWhile P xs \<noteq> [] \<Longrightarrow> last (dropWhile P xs) = last xs"
proof -
  assume ne: "dropWhile P xs \<noteq> []"
  have "last xs = last (takeWhile P xs @ dropWhile P xs)" by simp
  also have "\<dots> = last (dropWhile P xs)" using ne by (simp only: last_append if_False)
  finally show ?thesis by simp
qed

lemma trim_ends:
  assumes "trim s \<noteq> []"
  shows "\<not> isWhiteSpace (hd (trim s)) \<and> \<not> isWhiteSpace (last (trim s))"
proof -
  let ?ys = "dropWhile isWhiteSpace s"
  let ?zs = "dropWhile isWhiteSpace (rev ?ys)"
  from assms have zs: "?zs \<noteq> []" by (simp add: trim_def)
  have ys: "?ys \<noteq> []"
  proof
    assume "?ys = []"
    then have "?zs = []" by (simp only: rev.simps dropWhile.simps)
    with zs show False by contradiction
  qed
  have "last (trim s) = hd ?zs" using zs by (simp add: trim_def last_rev)
  moreover have "\<not> isWhiteSpace (hd ?zs)" using zs by (rule hd_dropWhile)
  moreover have "hd (trim s) = last ?zs" using zs by (simp add: trim_def hd_rev)
  moreover have "last ?zs = hd ?ys" using last_dropWhile_ne[OF zs] ys by (simp add: last_rev)
  moreover have "\<not> isWhiteSpace (hd ?ys)" using ys by (rule hd_dropWhile)
  ultimately show ?thesis by simp
qed

lemma dropWhile_id: "xs \<noteq> [] \<Longrightarrow> \<not> P (hd xs) \<Longrightarrow> dropWhile P xs = xs"
  by (cases xs) simp_all

lemma goodChunk_trim: "goodChunk c \<Longrightarrow> trim c = c"
proof -
  assume g: "goodChunk c"
  then have ne: "c \<noteq> []" and h: "\<not> isWhiteSpace (hd c)" and l: "\<not> isWhiteSpace (last c)"
    by (simp_all add: goodChunk_def)
  have 1: "dropWhile isWhiteSpace c = c" using ne h by (rule dropWhile_id)
  have "rev c \<noteq> []" "\<not> isWhiteSpace (hd (rev c))" using ne l by (simp_all add: hd_rev)
  then have 2: "dropWhile isWhiteSpace (rev c) = rev c" by (rule dropWhile_id)
  show ?thesis by (simp add: trim_def 1 2)
qed

lemma chunkLoop_good:
  assumes "chunkLoop tx start chunks = Some cs"
  shows "list_all goodChunk chunks \<longrightarrow> list_all goodChunk cs"
  using assms
proof (induction rule: chunkLoop.raw_induct[rotated 1, consumes 1])
  case (1 f tx start chunks cs)
  show ?case
  proof (cases "start < length tx")
    case False
    with 1(2) show ?thesis by simp
  next
    case True
    define end0 where "end0 = min (start + CHUNK_SIZE) (length tx)"
    define en where "en = (if end0 < length tx then findSentenceBoundary tx start end0 else end0)"
    define chunk where "chunk = trim (slice_str tx start en)"
    define chunks' where "chunks' = (if chunk \<noteq> [] then chunks @ [chunk] else chunks)"
    have e0: "start < end0" "end0 \<le> length tx" "end0 \<le> start + 512"
      using True by (auto simp: end0_def CHUNK_SIZE_def)
    have en: "en \<le> start + 512"
      using findSentenceBoundary_range[OF e0(1,2)] e0 by (auto simp: en_def)
    have "length chunk \<le> length (slice_str tx start en)" unfolding chunk_def by (rule trim_length)
    also have "\<dots> \<le> 512" using en by (simp add: slice_str_def)
    finally have len: "length chunk \<le> 512" .
    have good: "chunk \<noteq> [] \<Longrightarrow> goodChunk chunk"
      using len trim_ends[of "slice_str tx start en"] by (simp add: goodChunk_def chunk_def CHUNK_SIZE_def)
    have step: "list_all goodChunk chunks \<Longrightarrow> list_all goodChunk chunks'"
      using good by (simp add: chunks'_def)
    from 1(2) True have res: "(if length tx \<le> en then Some chunks'
        else f tx (nat (max 0 (int en - int CHUNK_OVERLAP))) chunks') = Some cs"
      by (simp only: Let_def end0_def en_def chunk_def chunks'_def if_True)
    show ?thesis
    proof (cases "length tx \<le> en")
      case True
      with res step show ?thesis by auto
    next
      case False
      with res have "f tx (nat (max 0 (int en - int CHUNK_OVERLAP))) chunks' = Some cs" by simp
      from 1(1)[OF this] step show ?thesis by blast
    qed
  qed
qed

lemma seam_chunks:
  "chunkText seamText = Some [replicate 400 97 @ [46], replicate 48 97 @ [46, 32] @ replicate 200 97]"
  by code_simp

lemma piece: "a \<le> p \<Longrightarrow> drop (p - a) (slice_str xs a b) = take (b - p) (drop p xs)"
  by (simp add: slice_str_def drop_take)

lemma take_drop_join: "p \<le> b \<Longrightarrow> take (b - p) (drop p xs) @ drop b xs = drop p xs"
proof -
  assume "p \<le> b"
  then have "drop b xs = drop (b - p) (drop p xs)" by simp
  then show ?thesis by (simp only: append_take_drop_id)
qed

lemma uncovered_chain:
  "windowChain (length xs) s ws \<Longrightarrow> s \<le> p \<Longrightarrow> p \<le> length xs \<Longrightarrow> uncovered xs p ws = drop p xs"
proof (induction ws arbitrary: s p)
  case Nil
  then show ?case by simp
next
  case (Cons w ws)
  obtain a b where w: "w = (a, b)" by (cases w)
  from Cons.prems w have a: "a = s" and b: "s < b" "b \<le> length xs"
    and rest: "if b = length xs then ws = [] else windowChain (length xs) (b - CHUNK_OVERLAP) ws"
    by simp_all
  have head: "drop (p - a) (slice_str xs a b) = take (b - p) (drop p xs)"
    using piece a Cons.prems(2) by simp
  show ?case
  proof (cases "b = length xs")
    case True
    with rest have "ws = []" by simp
    with w head True show ?thesis by simp
  next
    case False
    with rest have ch: "windowChain (length xs) (b - CHUNK_OVERLAP) ws" by simp
    have "b - CHUNK_OVERLAP \<le> max p b" by simp
    moreover have "max p b \<le> length xs" using b Cons.prems(3) by simp
    ultimately have ih: "uncovered xs (max p b) ws = drop (max p b) xs"
      using Cons.IH[OF ch] by blast
    show ?thesis
    proof (cases "p \<le> b")
      case True
      then have "max p b = b" by simp
      with ih w head take_drop_join[OF True, of xs] show ?thesis by simp
    next
      case False
      then have "max p b = p" "b - p = 0" by simp_all
      with ih w head show ?thesis by simp
    qed
  qed
qed

lemma chunkLoop_windows:
  assumes "chunkLoop text start chunks = Some cs"
  shows "\<exists>ws. windowChain (length text) start ws \<and> cs = chunks @ chunksOf text ws"
  using assms
proof (induction rule: chunkLoop.raw_induct[rotated 1, consumes 1])
  case (1 f tx start chunks cs)
  show ?case
  proof (cases "start < length tx")
    case False
    with 1(2) have "windowChain (length tx) start [] \<and> cs = chunks @ chunksOf tx []"
      by (simp add: chunksOf_def)
    then show ?thesis by blast
  next
    case True
    define end0 where "end0 = min (start + CHUNK_SIZE) (length tx)"
    define en where "en = (if end0 < length tx then findSentenceBoundary tx start end0 else end0)"
    define chunk where "chunk = trim (slice_str tx start en)"
    define chunks' where "chunks' = (if chunk \<noteq> [] then chunks @ [chunk] else chunks)"
    have e0: "start < end0" "end0 \<le> length tx" "end0 \<le> start + CHUNK_SIZE"
      using True by (auto simp: end0_def CHUNK_SIZE_def)
    have en: "start < en" "en \<le> start + CHUNK_SIZE" "en \<le> length tx"
      using findSentenceBoundary_range[OF e0(1,2)] e0 by (auto simp: en_def)
    have c': "chunks' = chunks @ chunksOf tx [(start, en)]"
      by (simp add: chunks'_def chunksOf_def chunk_def)
    from 1(2) True have res: "(if length tx \<le> en then Some chunks'
        else f tx (nat (max 0 (int en - int CHUNK_OVERLAP))) chunks') = Some cs"
      by (simp only: Let_def end0_def en_def chunk_def chunks'_def if_True)
    show ?thesis
    proof (cases "length tx \<le> en")
      case True
      with res en c' have "windowChain (length tx) start [(start, en)] \<and> cs = chunks @ chunksOf tx [(start, en)]"
        by simp
      then show ?thesis by blast
    next
      case False
      have nx: "nat (max 0 (int en - int CHUNK_OVERLAP)) = en - CHUNK_OVERLAP" by simp
      from False res have "f tx (en - CHUNK_OVERLAP) chunks' = Some cs" by (simp add: nx)
      from 1(1)[OF this] obtain ws where
        ws: "windowChain (length tx) (en - CHUNK_OVERLAP) ws" "cs = chunks' @ chunksOf tx ws"
        by blast
      have "windowChain (length tx) start ((start, en) # ws)" using ws(1) en False by simp
      moreover have "cs = chunks @ chunksOf tx ((start, en) # ws)"
        using ws(2) c' by (simp add: chunksOf_def)
      ultimately show ?thesis by blast
    qed
  qed
qed

lemma loopingText_boundary: "findSentenceBoundary loopingText 0 512 = 11"
  by code_simp

lemma loopingText_length: "length loopingText = 513"
  by (simp add: loopingText_def)

lemma chunkLoop_loopingText:
  assumes "chunkLoop text start chunks = Some y"
  shows "\<not> (text = loopingText \<and> start = 0)"
  using assms
proof (induction rule: chunkLoop.raw_induct[rotated 1, consumes 1])
  case (1 f tx start chunks y)
  show ?case
  proof
    assume a: "tx = loopingText \<and> start = 0"
    with 1(2) have "\<exists>c. f loopingText 0 c = Some y"
      by (auto simp: loopingText_length loopingText_boundary CHUNK_SIZE_def CHUNK_OVERLAP_def Let_def split: if_splits)
    then show False using 1(1) by blast
  qed
qed

text \<open>
  C1 (the code loops): on \<open>loopingText\<close> the first window is cut at its only space, at
  index 11, and the next window starts at \<open>max(0, 11 - 50) = 0\<close> again: the loop repeats
  its first iteration forever and \<open>chunkText\<close> does not return. The text is the body of
  the one section that \<open>splitIntoSections\<close> makes of a document with this text.
\<close>

theorem chunkText_diverges:
  "chunkText loopingText = None \<and> map body (splitIntoSections loopingText) = [loopingText]"
proof
  show "chunkText loopingText = None"
  proof (cases "chunkText loopingText")
    case None then show ?thesis .
  next
    case (Some y)
    then have "chunkLoop loopingText 0 [] = Some y"
      by (simp add: chunkText_def loopingText_def split: if_splits)
    then show ?thesis using chunkLoop_loopingText by blast
  qed
  show "map body (splitIntoSections loopingText) = [loopingText]"
    by code_simp
qed

text \<open>
  C6: every chunk that \<open>chunkText\<close> returns is non-empty, trimmed (it neither starts nor
  ends with white space) and at most 512 code units long.
\<close>

theorem chunks_ok:
  assumes "chunkText text = Some cs" "c \<in> set cs"
  shows "c \<noteq> [] \<and> \<not> isWhiteSpace (hd c) \<and> \<not> isWhiteSpace (last c) \<and> trim c = c
         \<and> length c \<le> 512"
proof -
  have "list_all goodChunk cs"
  proof (cases "text = []")
    case True with assms(1) show ?thesis by (simp add: chunkText_def)
  next
    case False
    with assms(1) have "chunkLoop text 0 [] = Some cs" by (simp add: chunkText_def)
    from chunkLoop_good[OF this] show ?thesis by simp
  qed
  with assms(2) have g: "goodChunk c" by (auto simp: list_all_iff)
  then have "trim c = c" by (rule goodChunk_trim)
  with g show ?thesis by (simp add: goodChunk_def CHUNK_SIZE_def)
qed

theorem chunks_ok_witness:
  "chunkText seamText = Some [replicate 400 97 @ [46], replicate 48 97 @ [46, 32] @ replicate 200 97]
   \<and> replicate 48 97 @ [46, 32] @ replicate 200 97
        \<in> set [replicate 400 97 @ [46], replicate 48 97 @ [46, 32] @ replicate 200 (97 :: jschar)]
   \<and> length (replicate 48 97 @ [46, 32] @ replicate 200 (97 :: jschar)) \<le> 512
   \<and> trim (replicate 48 97 @ [46, 32] @ replicate 200 97) = replicate 48 97 @ [46, 32] @ replicate 200 97"
proof -
  have m: "replicate 48 97 @ [46, 32] @ replicate 200 97
        \<in> set [replicate 400 97 @ [46], replicate 48 97 @ [46, 32] @ replicate 200 (97 :: jschar)]"
    by simp
  from chunks_ok[OF seam_chunks m] seam_chunks m show ?thesis by simp
qed

text \<open>
  C2 as stated fails: \<open>gapTextA\<close> and \<open>gapTextB\<close> are cut at their last space, the
  first slice is trimmed to the first word, and the second slice (from 50 before the cut)
  to the second word; both bodies give the same two chunks, so no way of removing overlaps
  gives back the body, and the first chunk followed by the second without its first 50
  code units is not the body.
\<close>

theorem lossless_counterexample:
  "chunkText gapTextA = Some [replicate 300 97, replicate 300 98]
   \<and> chunkText gapTextB = Some [replicate 300 97, replicate 300 98]
   \<and> gapTextA \<noteq> gapTextB
   \<and> removeOverlaps [replicate 300 97, replicate 300 98] \<noteq> gapTextA"
  by code_simp

text \<open>
  C2, amended: when \<open>chunkText\<close> returns, its chunks are the non-empty trimmed slices of
  a chain of windows that starts at 0, steps back by the overlap and ends at the end of
  the text, and the untrimmed slices of these windows, each without the part already
  covered, give back the text.
\<close>

theorem chunk_windows:
  assumes "chunkText text = Some cs"
  shows "\<exists>ws. windowChain (length text) 0 ws \<and> cs = chunksOf text ws \<and> uncovered text 0 ws = text"
proof -
  have "\<exists>ws. windowChain (length text) 0 ws \<and> cs = chunksOf text ws"
  proof (cases "text = []")
    case True
    with assms have "windowChain (length text) 0 [] \<and> cs = chunksOf text []"
      by (simp add: chunkText_def chunksOf_def)
    then show ?thesis by blast
  next
    case False
    with assms have "chunkLoop text 0 [] = Some cs" by (simp add: chunkText_def)
    from chunkLoop_windows[OF this] show ?thesis by simp
  qed
  then obtain ws where ws: "windowChain (length text) 0 ws" "cs = chunksOf text ws" by blast
  from uncovered_chain[OF ws(1), of 0] have "uncovered text 0 ws = text" by simp
  with ws show ?thesis by blast
qed

theorem chunk_windows_witness:
  "chunkText seamText = Some [replicate 400 97 @ [46], replicate 48 97 @ [46, 32] @ replicate 200 97]
   \<and> (\<exists>ws. windowChain (length seamText) 0 ws
        \<and> [replicate 400 97 @ [46], replicate 48 97 @ [46, 32] @ replicate 200 97] = chunksOf seamText ws
        \<and> uncovered seamText 0 ws = seamText)"
  using chunk_windows[OF seam_chunks] seam_chunks by simp

section \<open>Provider failover\<close>

lemma tryConfigs_completed:
  assumes "\<forall>c\<in>set pre. \<exists>e. call c = Failed e \<and> is429 e"
    and "call c = Completed reply"
    and "i + length pre < n"
  shows "tryConfigs call n i (pre @ c # post) st =
           (None, st\<lparr>replyText := (case reply of Some s \<Rightarrow> s | None \<Rightarrow> []),
                      lastErr := None, called := called st @ pre @ [c]\<rparr>)"
  using assms
proof (induction pre arbitrary: i st)
  case Nil
  then show ?case by simp
next
  case (Cons x pre)
  from Cons.prems(1) obtain e where e: "call x = Failed e" "is429 e" by auto
  have nl: "\<not> int i \<ge> int n - 1" using Cons.prems(3) by simp
  have ih: "tryConfigs call n (Suc i) (pre @ c # post) st' =
           (None, st'\<lparr>replyText := (case reply of Some s \<Rightarrow> s | None \<Rightarrow> []),
                      lastErr := None, called := called st' @ pre @ [c]\<rparr>)" for st'
    using Cons.IH[of "Suc i" st'] Cons.prems by simp
  show ?case using e nl by (simp add: ih Let_def)
qed

lemma tryConfigs_thrown:
  assumes "\<forall>c\<in>set pre. \<exists>e. call c = Failed e \<and> is429 e"
    and "call c = Failed e"
    and "\<not> is429 e \<or> n \<le> i + length pre + 1"
    and "i + length pre < n"
  shows "tryConfigs call n i (pre @ c # post) st =
           (Some e, st\<lparr>lastErr := Some e, called := called st @ pre @ [c]\<rparr>)"
  using assms
proof (induction pre arbitrary: i st)
  case Nil
  then show ?case by (auto simp: Let_def)
next
  case (Cons x pre)
  from Cons.prems(1) obtain e' where e: "call x = Failed e'" "is429 e'" by auto
  have nl: "\<not> int i \<ge> int n - 1" using Cons.prems(4) by simp
  have ih: "tryConfigs call n (Suc i) (pre @ c # post) st' =
           (Some e, st'\<lparr>lastErr := Some e, called := called st' @ pre @ [c]\<rparr>)" for st'
    using Cons.IH[of "Suc i" st'] Cons.prems by simp
  show ?case using e nl by (simp add: ih Let_def)
qed

text \<open>
  C3: let the providers \<open>pre\<close> before \<open>c\<close> all fail with a quota error. If the call of
  \<open>c\<close> succeeds, the handler uses its response and calls nothing behind \<open>c\<close>; if it
  fails with another error, the handler fails with that error and calls nothing behind
  \<open>c\<close>; if \<open>c\<close> is the last provider and fails with a quota error too, the call fails
  with that error. In each case the providers called are exactly \<open>pre\<close> and \<open>c\<close>, in
  order, each once.
\<close>

theorem failover_policy:
  assumes "\<forall>p\<in>set pre. \<exists>q. call p = Failed q \<and> is429 q"
  shows "(call c = Completed reply \<longrightarrow>
            runFailover call (pre @ c # post)
              = (Inr (case reply of Some s \<Rightarrow> s | None \<Rightarrow> []), pre @ [c]))
       \<and> (call c = Failed e \<and> \<not> is429 e \<longrightarrow>
            runFailover call (pre @ c # post) = (Inl e, pre @ [c]))
       \<and> (call c = Failed e \<and> is429 e \<longrightarrow>
            runFailover call (pre @ [c]) = (Inl e, pre @ [c]))"
proof (intro conjI impI)
  assume "call c = Completed reply"
  from tryConfigs_completed[OF assms this, of 0 "length (pre @ c # post)" post]
  show "runFailover call (pre @ c # post)
              = (Inr (case reply of Some s \<Rightarrow> s | None \<Rightarrow> []), pre @ [c])"
    by (simp add: runFailover_def)
next
  assume a: "call c = Failed e \<and> \<not> is429 e"
  then have "call c = Failed e" "\<not> is429 e \<or> length (pre @ c # post) \<le> 0 + length pre + 1" by simp_all
  from tryConfigs_thrown[OF assms this, of post]
  show "runFailover call (pre @ c # post) = (Inl e, pre @ [c])"
    by (simp add: runFailover_def)
next
  assume a: "call c = Failed e \<and> is429 e"
  then have "call c = Failed e" "\<not> is429 e \<or> length (pre @ [c]) \<le> 0 + length pre + 1" by simp_all
  from tryConfigs_thrown[OF assms this, of "[]"]
  show "runFailover call (pre @ [c]) = (Inl e, pre @ [c])"
    by (simp add: runFailover_def)
qed

lemma demo429: "is429 (ustr ''Error: 429 Too Many Requests'')" "is429 (ustr ''insufficient_quota'')"
  "\<not> is429 (ustr ''ECONNREFUSED'')"
  by code_simp+

theorem failover_policy_witness:
  "runFailover demoCall [0, 1, 2, 3] = (Inr (ustr ''<answer>ok</answer>''), [0, 1, 2])
   \<and> runFailover demoCall [0, 3, 2] = (Inl (ustr ''ECONNREFUSED''), [0, 3])
   \<and> runFailover demoCall [0, 1] = (Inl (ustr ''insufficient_quota''), [0, 1])"
proof -
  have q: "\<forall>p\<in>set [0, 1]. \<exists>q. demoCall p = Failed q \<and> is429 q"
    by (simp add: demoCall_def demo429)
  have q0: "\<forall>p\<in>set [0]. \<exists>q. demoCall p = Failed q \<and> is429 q"
    by (simp add: demoCall_def demo429)
  have c2: "demoCall 2 = Completed (Some (ustr ''<answer>ok</answer>''))" by (simp add: demoCall_def)
  have c3: "demoCall 3 = Failed (ustr ''ECONNREFUSED'') \<and> \<not> is429 (ustr ''ECONNREFUSED'')"
    by (simp add: demoCall_def demo429)
  have c1: "demoCall 1 = Failed (ustr ''insufficient_quota'') \<and> is429 (ustr ''insufficient_quota'')"
    by (simp add: demoCall_def demo429)
  from failover_policy[OF q, of 2 "Some (ustr ''<answer>ok</answer>'')" "[3]"] c2
  have 1: "runFailover demoCall [0, 1, 2, 3] = (Inr (ustr ''<answer>ok</answer>''), [0, 1, 2])" by simp
  from failover_policy[OF q0, of 3 _ "[2]" "ustr ''ECONNREFUSED''"] c3
  have 2: "runFailover demoCall [0, 3, 2] = (Inl (ustr ''ECONNREFUSED''), [0, 3])" by simp
  from failover_policy[OF q0, of 1 _ _ "ustr ''insufficient_quota''"] c1
  have 3: "runFailover demoCall [0, 1] = (Inl (ustr ''insufficient_quota''), [0, 1])" by simp
  from 1 2 3 show ?thesis by simp
qed

section \<open>Confidence and cosine similarity\<close>

text \<open>
  C8: a distance below 0.35 is High, one below 0.55 (and not below 0.35) is Medium, and
  everything else, NaN included, is Low; 0.2, 0.4 and 0.6 give High, Medium and Low, and
  the boundary values 0.35 and 0.55 give Medium and Low.
\<close>

theorem estimateConfidence_thresholds:
  "(num_lt d 0.35 \<longrightarrow> estimateConfidence d = High)
   \<and> (\<not> num_lt d 0.35 \<and> num_lt d 0.55 \<longrightarrow> estimateConfidence d = Medium)
   \<and> (\<not> num_lt d 0.35 \<and> \<not> num_lt d 0.55 \<longrightarrow> estimateConfidence d = Low)
   \<and> estimateConfidence (Some 0.2) = High
   \<and> estimateConfidence (Some 0.4) = Medium
   \<and> estimateConfidence (Some 0.6) = Low
   \<and> estimateConfidence (Some 0.35) = Medium
   \<and> estimateConfidence (Some 0.55) = Low"
  by (simp add: estimateConfidence_def num_lt_def)

theorem estimateConfidence_thresholds_witness:
  "num_lt (Some 0.1) 0.35 \<and> estimateConfidence (Some 0.1) = High
   \<and> \<not> num_lt (Some 0.5) 0.35 \<and> num_lt (Some 0.5) 0.55 \<and> estimateConfidence (Some 0.5) = Medium
   \<and> \<not> num_lt None 0.35 \<and> \<not> num_lt None 0.55 \<and> estimateConfidence None = Low"
  using estimateConfidence_thresholds[of "Some 0.1"] estimateConfidence_thresholds[of "Some 0.5"]
    estimateConfidence_thresholds[of None]
  by (simp add: num_lt_def)

lemma cosineSums_upto:
  "n \<le> length a \<Longrightarrow>
   foldl (\<lambda>(dot, normA, normB) i.
              (num_add dot (num_mul (elemAt a i) (elemAt b i)),
               num_add normA (num_mul (elemAt a i) (elemAt a i)),
               num_add normB (num_mul (elemAt b i) (elemAt b i))))
       (Some 0, Some 0, Some 0) [0..<n] = sumsUpto a b n"
proof (induction n)
  case 0
  then show ?case by (simp add: sumsUpto_def)
next
  case (Suc n)
  then have "n < length a" by simp
  with Suc show ?case
    by (auto simp: sumsUpto_def elemAt_def num_add_def num_mul_def)
qed

lemma cosineSums_closed: "cosineSums a b = sumsUpto a b (length a)"
  unfolding cosineSums_def by (rule cosineSums_upto) simp

lemma sum_squares_zero:
  fixes f :: "nat \<Rightarrow> real"
  shows "(\<Sum>i<n. f i * f i) = 0 \<longleftrightarrow> (\<forall>i<n. f i = 0)"
proof -
  have "(\<Sum>i<n. f i * f i) = 0 \<longleftrightarrow> (\<forall>i\<in>{..<n}. f i * f i = 0)"
    by (rule sum_nonneg_eq_0_iff) simp_all
  then show ?thesis by auto
qed

lemma sum_squares_nonneg:
  fixes f :: "nat \<Rightarrow> real"
  shows "0 \<le> (\<Sum>i<n. f i * f i)"
  by (rule sum_nonneg) simp

text \<open>
  C9: \<open>cosineSimilarity\<close> never divides by zero; it returns 0 when \<open>normA\<close> or
  \<open>normB\<close> is zero (or NaN), in particular when all entries of \<open>a\<close> or all entries of
  \<open>b\<close> are zero, so the division is reached only with both norms non-zero.
\<close>

theorem cosine_no_division_by_zero:
  "cosineSimilarity a b \<noteq> Inl DivisionByZero
   \<and> (falsy (fst (snd (cosineSums a b))) \<or> falsy (snd (snd (cosineSums a b)))
        \<longrightarrow> cosineSimilarity a b = Inr 0)
   \<and> ((\<forall>x\<in>set a. x = 0) \<or> (\<forall>x\<in>set b. x = 0) \<longrightarrow> cosineSimilarity a b = Inr 0)"
proof (intro conjI impI)
  show "cosineSimilarity a b \<noteq> Inl DivisionByZero"
  proof (cases "length a \<le> length b")
    case False
    then show ?thesis by (simp add: cosineSimilarity_def cosineSums_closed sumsUpto_def falsy_def)
  next
    case True
    let ?x = "\<Sum>i<length a. a ! i * a ! i"
    let ?y = "\<Sum>i<length a. b ! i * b ! i"
    have nn: "0 \<le> ?x" "0 \<le> ?y" by (rule sum_squares_nonneg)+
    show ?thesis
    proof (cases "?x = 0 \<or> ?y = 0")
      case True
      with \<open>length a \<le> length b\<close> show ?thesis
        by (auto simp: cosineSimilarity_def cosineSums_closed sumsUpto_def falsy_def)
    next
      case False
      with nn have "sqrt ?x * sqrt ?y \<noteq> 0" by simp
      with False \<open>length a \<le> length b\<close> show ?thesis
        by (simp add: cosineSimilarity_def cosineSums_closed sumsUpto_def falsy_def
            divide_checked_def num_mul_def)
    qed
  qed
next
  assume "falsy (fst (snd (cosineSums a b))) \<or> falsy (snd (snd (cosineSums a b)))"
  then show "cosineSimilarity a b = Inr 0"
    by (auto simp: cosineSimilarity_def split: prod.splits)
next
  assume z: "(\<forall>x\<in>set a. x = 0) \<or> (\<forall>x\<in>set b. x = 0)"
  show "cosineSimilarity a b = Inr 0"
  proof (cases "length a \<le> length b")
    case False
    then show ?thesis by (simp add: cosineSimilarity_def cosineSums_closed sumsUpto_def falsy_def)
  next
    case True
    from z have "(\<Sum>i<length a. a ! i * a ! i) = 0 \<or> (\<Sum>i<length a. b ! i * b ! i) = 0"
    proof
      assume "\<forall>x\<in>set a. x = 0"
      then have "\<forall>i<length a. a ! i = 0" by simp
      then show ?thesis by (simp add: sum_squares_zero)
    next
      assume "\<forall>x\<in>set b. x = 0"
      then have "\<forall>i<length a. b ! i = 0" using True by simp
      then show ?thesis by (simp add: sum_squares_zero)
    qed
    with True show ?thesis
      by (auto simp: cosineSimilarity_def cosineSums_closed sumsUpto_def falsy_def)
  qed
qed

lemma cosine_eval:
  "cosineSimilarity [0, 0] [3, 1] = Inr 0" "cosineSimilarity [3, 4] [3, 4] = Inr 1"
  "cosineSimilarity [1, 0] [0, 1] = Inr 0" "cosineSimilarity [1, 0] [1, 0] = Inr 1"
  "cosineSimilarity [1, 2] [5] = Inr 0"
  by (simp_all add: cosineSimilarity_def cosineSums_def elemAt_def num_add_def num_mul_def falsy_def divide_checked_def)

theorem cosine_no_division_by_zero_witness:
  "cosineSimilarity [0, 0] [3, 1] = Inr 0
   \<and> falsy (snd (snd (cosineSums [1, 2] [5]))) \<and> cosineSimilarity [1, 2] [5] = Inr 0
   \<and> cosineSimilarity [3, 4] [3, 4] = Inr 1 \<and> cosineSimilarity [3, 4] [3, 4] \<noteq> Inl DivisionByZero"
proof -
  have f: "falsy (snd (snd (cosineSums [1, 2] [5])))"
    by (simp add: cosineSums_def elemAt_def num_add_def num_mul_def falsy_def)
  have z: "\<forall>x\<in>set [0, 0 :: real]. x = 0" by simp
  from cosine_no_division_by_zero[of "[0, 0]" "[3, 1]"] cosine_no_division_by_zero[of "[1, 2]" "[5]"]
    cosine_no_division_by_zero[of "[3, 4]" "[3, 4]"] f z cosine_eval
  show ?thesis by simp
qed

section \<open>Index cache and retrieval\<close>

lemma demo_load: "loadPolicyDocs [None, Some demoFiles] = Inr demoDocs"
  by code_simp

lemma demo_chunks: "allChunks demoDocs = Some demoChunks"
  by code_simp

lemma demo_embed:
  "embedTexts demoEnv [ustr ''Refunds take five days.'', ustr ''Shipping is free.''] w
     = (Inr [[1, 0], [0, 1]],
        w\<lparr>embedLog := embedLog w @ [[ustr ''Refunds take five days.'', ustr ''Shipping is free.'']]\<rparr>)"
  by (simp add: embedTexts_def embedBatches.simps batchSize_def demoEnv_def demoEmbed_def Let_def ustr_def)

lemma demo_get: "getIndex demoEnv initialWorld = Some (Inr 0, demoWorld)"
proof -
  have d: "dataDirs demoEnv = [None, Some demoFiles]" by (simp add: demoEnv_def)
  have c: "map content demoChunks = [ustr ''Refunds take five days.'', ustr ''Shipping is free.'']"
    by (simp add: demoChunks_def)
  have z: "zip demoChunks [0..<length demoChunks] = [(demoChunks ! 0, 0), (demoChunks ! 1, 1)]"
    by (simp add: demoChunks_def upt_rec)
  show ?thesis
    unfolding getIndex_def d demo_load
    by (simp add: demo_chunks c demo_embed z Let_def initialWorld_def demoWorld_def nthOpt_def
        demoChunks_def demoIndex_def)
qed


lemma getIndex_sets_cache:
  assumes "getIndex e w = Some (Inr r, w1)" "loadPolicyDocs (dataDirs e) = Inr docs"
  shows "cachedIndex w1 = Some r \<and> cachedDocsHash w1 = Some (hashDocs docs)"
proof (cases "cachedIndex w \<noteq> None \<and> cachedDocsHash w = Some (hashDocs docs)")
  case True
  with assms show ?thesis by (auto simp: getIndex_def Let_def)
next
  case False
  with assms show ?thesis
    by (auto simp: getIndex_def Let_def split: option.splits prod.splits sum.splits)
qed

text \<open>
  C5: after a \<open>getIndex\<close> that returned the reference \<open>r\<close>, a second \<open>getIndex\<close> on
  a corpus with the same fingerprint returns the same reference \<open>r\<close>, and changes
  nothing but the count of directory reads: no call of the embedding provider, no new
  array.
\<close>

theorem getIndex_idempotent:
  assumes "getIndex e w = Some (Inr r, w1)"
    and "loadPolicyDocs (dataDirs e) = Inr docs"
    and "loadPolicyDocs (dataDirs e') = Inr docs'"
    and "hashDocs docs' = hashDocs docs"
  shows "getIndex e' w1 = Some (Inr r, w1\<lparr>fsReads := fsReads w1 + 1\<rparr>)
         \<and> embedLog (w1\<lparr>fsReads := fsReads w1 + 1\<rparr>) = embedLog w1
         \<and> arrays (w1\<lparr>fsReads := fsReads w1 + 1\<rparr>) = arrays w1"
proof -
  from getIndex_sets_cache[OF assms(1,2)]
  have c: "cachedIndex w1 = Some r" "cachedDocsHash w1 = Some (hashDocs docs)" by simp_all
  with assms(3,4) show ?thesis by (simp add: getIndex_def Let_def)
qed

theorem getIndex_idempotent_witness:
  "getIndex demoEnv initialWorld = Some (Inr 0, demoWorld)
   \<and> loadPolicyDocs (dataDirs demoEnv) = Inr demoDocs
   \<and> hashDocs demoDocs = hashDocs demoDocs
   \<and> getIndex demoEnv demoWorld = Some (Inr 0, demoWorld\<lparr>fsReads := fsReads demoWorld + 1\<rparr>)
   \<and> embedLog (demoWorld\<lparr>fsReads := fsReads demoWorld + 1\<rparr>) = embedLog demoWorld"
proof -
  have l: "loadPolicyDocs (dataDirs demoEnv) = Inr demoDocs"
    by (simp add: demoEnv_def demo_load)
  from getIndex_idempotent[OF demo_get l l refl] demo_get l show ?thesis by simp
qed

lemma scoreAll_fst: "scoreAll e q index = Inr scored \<Longrightarrow> map fst scored = index"
  by (induction index arbitrary: scored)
     (auto simp: scoreChunk_def split: sum.splits option.splits if_splits)

lemma sorted_hd_Min:
  fixes f :: "'a \<Rightarrow> real"
  assumes "sorted (map f ys)" "ys \<noteq> []"
  shows "f (hd ys) = Min (f ` set ys)"
proof -
  from assms(2) obtain y rest where ys: "ys = y # rest" by (cases ys) auto
  with assms(1) have le: "\<forall>z\<in>set rest. f y \<le> f z" by simp
  have "Min (f ` set ys) = f y"
  proof (rule Min_eqI)
    show "finite (f ` set ys)" by simp
    show "f y \<in> f ` set ys" by (simp add: ys)
    fix v assume "v \<in> f ` set ys"
    with le ys show "f y \<le> v" by auto
  qed
  with ys show ?thesis by simp
qed

lemma filter_distance_key:
  assumes "\<forall>s\<in>set xs. snd s \<noteq> None"
  shows "filter (\<lambda>s. snd s = d) xs =
           (case d of None \<Rightarrow> [] | Some x \<Rightarrow> filter (\<lambda>s. the (snd s) = x) xs)"
proof (cases d)
  case None
  with assms show ?thesis by (simp add: filter_empty_conv)
next
  case (Some x)
  have "filter (\<lambda>s. snd s = Some x) xs = filter (\<lambda>s. the (snd s) = x) xs"
    using assms by (intro filter_cong) auto
  with Some show ?thesis by simp
qed

lemma sort_stable_distance:
  assumes "\<forall>s\<in>set scored. snd s \<noteq> None"
  shows "filter (\<lambda>s. snd s = d) (sort_key (\<lambda>s. the (snd s)) scored)
           = filter (\<lambda>s. snd s = d) scored"
proof -
  have "\<forall>s\<in>set (sort_key (\<lambda>s. the (snd s)) scored). snd s \<noteq> None" using assms by simp
  from filter_distance_key[OF this] filter_distance_key[OF assms]
  show ?thesis by (simp add: sort_key_stable split: option.splits)
qed

lemma selectTop_ranked:
  assumes nn: "\<forall>s\<in>set scored. snd s \<noteq> None" and k: "0 \<le> topK"
  shows "ranked scored topK (selectTop e scored topK)"
proof -
  let ?key = "\<lambda>s :: IndexedChunk \<times> real option. the (snd s)"
  let ?ordered = "sort_key ?key scored"
  have srt: "sortByDistance e scored = ?ordered" using nn by (simp add: sortByDistance_def)
  have top: "sliceTo ?ordered topK = take (nat topK) ?ordered" using k by (simp add: sliceTo_def)
  have res: "selectTop e scored topK =
      (if scored = [] \<or> topK = 0 \<or> Min (?key ` set scored) > DISTANCE_THRESHOLD
       then [] else map toRetrieved (take (nat topK) ?ordered))"
  proof (cases "scored = [] \<or> topK = 0")
    case True
    then have "take (nat topK) ?ordered = []" by auto
    with True show ?thesis by (simp add: selectTop_def srt top)
  next
    case False
    have "length ?ordered = length scored" by simp
    with False have ne: "?ordered \<noteq> []" by (metis length_0_conv)
    from False k have pos: "0 < nat topK" by simp
    from ne pos have tne: "take (nat topK) ?ordered \<noteq> []" by (cases ?ordered) auto
    from ne pos have hd: "hd (take (nat topK) ?ordered) = hd ?ordered" by (cases ?ordered) auto
    have "hd ?ordered \<in> set ?ordered" using ne by (rule hd_in_set)
    then have "hd ?ordered \<in> set scored" by (simp only: set_sort)
    then have "snd (hd ?ordered) \<noteq> None" using nn by blast
    then have gt: "num_gt (snd (hd ?ordered)) DISTANCE_THRESHOLD
                     \<longleftrightarrow> ?key (hd ?ordered) > DISTANCE_THRESHOLD"
      by (auto simp: num_gt_def)
    have "?key (hd ?ordered) = Min (?key ` set ?ordered)"
      by (rule sorted_hd_Min) (simp_all add: ne)
    then have "?key (hd ?ordered) = Min (?key ` set scored)" by simp
    with gt False tne hd show ?thesis by (simp add: selectTop_def srt top)
  qed
  have "mset ?ordered = mset scored" by simp
  moreover have "sorted (map ?key ?ordered)" by simp
  moreover have "\<forall>d. filter (\<lambda>s. snd s = d) ?ordered = filter (\<lambda>s. snd s = d) scored"
    using sort_stable_distance[OF nn] by simp
  ultimately show ?thesis unfolding ranked_def using res by blast
qed

text \<open>The list \<open>ordered\<close> of \<open>ranked\<close> is the only one, so \<open>ranked\<close> has one result.\<close>

lemma ranked_unique:
  assumes nn: "\<forall>s\<in>set scored. snd s \<noteq> None"
    and "ranked scored topK r1" "ranked scored topK r2"
  shows "r1 = r2"
proof -
  let ?key = "\<lambda>s :: IndexedChunk \<times> real option. the (snd s)"
  have u: "sort_key ?key scored = ordered"
    if m: "mset ordered = mset scored" and s: "sorted (map ?key ordered)"
      and f: "\<forall>d. filter (\<lambda>s. snd s = d) ordered = filter (\<lambda>s. snd s = d) scored" for ordered
  proof (rule properties_for_sort_key[OF m _ s])
    fix k assume "k \<in> set ordered"
    from m have se: "set ordered = set scored" by (rule mset_eq_setD)
    with nn have nn': "\<forall>s\<in>set ordered. snd s \<noteq> None" by simp
    have "filter (\<lambda>x. ?key k = ?key x) ordered = filter (\<lambda>s. snd s = Some (?key k)) ordered"
      using nn' by (intro filter_cong) auto
    also have "\<dots> = filter (\<lambda>s. snd s = Some (?key k)) scored" using f by simp
    also have "\<dots> = filter (\<lambda>x. ?key k = ?key x) scored"
      using nn by (intro filter_cong) auto
    finally show "filter (\<lambda>x. ?key k = ?key x) ordered = filter (\<lambda>x. ?key k = ?key x) scored" .
  qed
  from assms(2,3) u show ?thesis unfolding ranked_def by metis
qed

lemma ranked_facts:
  assumes "ranked scored topK result" "0 \<le> topK"
  shows "sorted (map (\<lambda>c. the (distance c)) result) \<and> int (length result) \<le> topK"
proof -
  from assms(1) obtain ordered where
    s: "sorted (map (\<lambda>s. the (snd s)) ordered)"
    and r: "result = [] \<or> result = map toRetrieved (take (nat topK) ordered)"
    unfolding ranked_def by metis
  have conv: "map (\<lambda>c. the (distance c)) (map toRetrieved xs) = map (\<lambda>s. the (snd s)) xs" for xs
    by (induction xs) (simp_all add: toRetrieved_def)
  have "sorted (take (nat topK) (map (\<lambda>s. the (snd s)) ordered))"
    using s by (rule sorted_wrt_take)
  then have "sorted (map (\<lambda>s. the (snd s)) (take (nat topK) ordered))"
    by (simp only: take_map)
  then have "sorted (map (\<lambda>c. the (distance c)) (map toRetrieved (take (nat topK) ordered)))"
    by (simp only: conv)
  moreover have "int (length (map toRetrieved (take (nat topK) ordered))) \<le> topK"
    using assms(2) by simp
  ultimately show ?thesis using r assms(2) by auto
qed

text \<open>
  A NaN at the head passes the cutoff, since \<open>NaN > 0.8\<close> is false: a chunk at
  distance 1 is returned behind it. (In double arithmetic the query and chunk embeddings
  (1e200, 1) give \<open>Infinity / Infinity\<close>, which is NaN.)
\<close>

lemma nan_passes_cutoff:
  "selectTop e [(c1, None), (c2, Some 1)] 5 = [toRetrieved (c1, None), toRetrieved (c2, Some 1)]"
  by (simp add: selectTop_def sortByDistance_def comparesEqual_def sliceTo_def num_gt_def Let_def)

lemma demo_query_embed:
  "embedTexts demoEnv [demoQuery] w = (Inr [[1, 0]], w\<lparr>embedLog := embedLog w @ [[demoQuery]]\<rparr>)"
  by (simp add: embedTexts_def embedBatches.simps batchSize_def demoEnv_def demoEmbed_def Let_def
      ustr_def demoQuery_def)

lemma cosine_unit:
  "cosineSimilarity [1, 0] [1, 0] = Inr 1" "cosineSimilarity [1, 0] [0, 1] = Inr 0"
  by (simp_all add: cosineSimilarity_def cosineSums_def elemAt_def num_add_def num_mul_def
      falsy_def divide_checked_def)

lemma demo_scored:
  "scoreAll demoEnv (Some [1, 0]) demoIndex = Inr demoScored"
  by (simp add: demoIndex_def demoScored_def scoreChunk_def demoEnv_def demoDistance_def cosine_unit)

lemma demo_sorted: "sortByDistance demoEnv demoScored = demoScored"
  by (simp add: sortByDistance_def demoScored_def demoIndex_def)

lemma demo_select:
  "selectTop demoEnv demoScored 5 = demoResult"
  by (simp add: selectTop_def demo_sorted Let_def)
     (simp add: demoScored_def sliceTo_def num_gt_def DISTANCE_THRESHOLD_def toRetrieved_def
        demoIndex_def demoResult_def)

lemma demo_select_negative:
  "selectTop demoEnv demoScored (- 1) = take 1 demoResult"
  by (simp add: selectTop_def demo_sorted Let_def)
     (simp add: demoScored_def sliceTo_def num_gt_def DISTANCE_THRESHOLD_def toRetrieved_def
        demoIndex_def demoResult_def)

lemma demo_query_trim: "trim demoQuery \<noteq> []"
  by code_simp

lemma demo_retrieve:
  "retrieve demoEnv demoQuery 5 initialWorld
     = Some (Inr demoResult, demoWorld\<lparr>embedLog := embedLog demoWorld @ [[demoQuery]]\<rparr>)"
proof -
  have a: "arrays demoWorld 0 = Some demoIndex" by (simp add: demoWorld_def)
  have n: "demoIndex \<noteq> []" by (simp add: demoIndex_def)
  show ?thesis
    by (simp add: retrieve_def demo_query_trim demo_get a n demo_query_embed nthOpt_def
        demo_scored demo_select)
qed

text \<open>
  C4 as stated fails for a negative \<open>topK\<close>: \<open>slice(0, -1)\<close> drops the last chunk only,
  so on the small corpus \<open>retrieve\<close> with \<open>topK = -1\<close> returns one chunk, which is more
  than \<open>topK\<close>.
\<close>

theorem topK_counterexample:
  "retrieve demoEnv demoQuery (- 1) initialWorld
     = Some (Inr (take 1 demoResult), demoWorld\<lparr>embedLog := embedLog demoWorld @ [[demoQuery]]\<rparr>)
   \<and> \<not> int (length (take 1 demoResult)) \<le> - 1"
proof -
  have a: "arrays demoWorld 0 = Some demoIndex" by (simp add: demoWorld_def)
  have n: "demoIndex \<noteq> []" by (simp add: demoIndex_def)
  have "retrieve demoEnv demoQuery (- 1) initialWorld
     = Some (Inr (take 1 demoResult), demoWorld\<lparr>embedLog := embedLog demoWorld @ [[demoQuery]]\<rparr>)"
    by (simp add: retrieve_def demo_query_trim demo_get a n demo_query_embed nthOpt_def
        demo_scored demo_select_negative)
  then show ?thesis by (simp add: demoResult_def)
qed

text \<open>
  C4, amended: for a non-blank query and \<open>topK \<ge> 0\<close>, a result of \<open>retrieve\<close> is empty
  when the index is empty; otherwise \<open>scored\<close> is the index, chunk by chunk, with the
  distances the machine computes against the embedding of the query, and if none of them
  is NaN the result is \<open>ranked\<close>: it is the first \<open>topK\<close> chunks of \<open>scored\<close> in
  ascending order of distance, chunks of equal distance in index order, or the empty list
  when \<open>topK\<close> is 0 or the smallest distance exceeds 0.8. So it is ascending by distance
  and has at most \<open>topK\<close> chunks.
\<close>

theorem retrieve_ranked:
  assumes "retrieve e query topK w = Some (Inr result, w')"
    and "trim query \<noteq> []" and "0 \<le> topK"
  shows "\<exists>r w1. getIndex e w = Some (Inr r, w1) \<and>
           (case arrays w1 r of
              None \<Rightarrow> result = []
            | Some index \<Rightarrow>
                if index = [] then result = []
                else \<exists>embs scored. embedTexts e [query] w1 = (Inr embs, w')
                       \<and> scoreAll e (nthOpt embs 0) index = Inr scored
                       \<and> map fst scored = index
                       \<and> ((\<forall>s\<in>set scored. snd s \<noteq> None) \<longrightarrow>
                            ranked scored topK result
                            \<and> sorted (map (\<lambda>c. the (distance c)) result)
                            \<and> int (length result) \<le> topK))"
proof -
  from assms(1,2) obtain r w1 where g: "getIndex e w = Some (Inr r, w1)"
    by (auto simp: retrieve_def split: option.splits sum.splits prod.splits)
  show ?thesis
  proof (cases "arrays w1 r")
    case None
    with assms(1,2) g show ?thesis by (simp add: retrieve_def)
  next
    case (Some index)
    show ?thesis
    proof (cases "index = []")
      case True
      with assms(1,2) g Some show ?thesis by (simp add: retrieve_def)
    next
      case False
      with assms(1,2) g Some obtain embs scored where
        s: "embedTexts e [query] w1 = (Inr embs, w')" "scoreAll e (nthOpt embs 0) index = Inr scored"
           "result = selectTop e scored topK"
        by (auto simp: retrieve_def Let_def split: option.splits sum.splits prod.splits)
      have f: "map fst scored = index" using s(2) by (rule scoreAll_fst)
      have "ranked scored topK result \<and> sorted (map (\<lambda>c. the (distance c)) result)
              \<and> int (length result) \<le> topK"
        if nn: "\<forall>s\<in>set scored. snd s \<noteq> None"
      proof -
        from selectTop_ranked[OF nn assms(3), of e] s(3) have rk: "ranked scored topK result" by simp
        with ranked_facts[OF rk assms(3)] show ?thesis by simp
      qed
      with g Some False s f show ?thesis by auto
    qed
  qed
qed

theorem retrieve_ranked_witness:
  "retrieve demoEnv demoQuery 5 initialWorld
     = Some (Inr demoResult, demoWorld\<lparr>embedLog := embedLog demoWorld @ [[demoQuery]]\<rparr>)
   \<and> trim demoQuery \<noteq> [] \<and> (0 :: int) \<le> 5
   \<and> scoreAll demoEnv (Some [1, 0]) demoIndex = Inr demoScored
   \<and> ranked demoScored 5 demoResult"
proof -
  have k: "(0 :: int) \<le> 5" by simp
  have a: "arrays demoWorld 0 = Some demoIndex" by (simp add: demoWorld_def)
  have n: "demoIndex \<noteq> []" by (simp add: demoIndex_def)
  have nn: "\<forall>s\<in>set demoScored. snd s \<noteq> None" by (simp add: demoScored_def demoIndex_def)
  from retrieve_ranked[OF demo_retrieve demo_query_trim k]
  have "(\<forall>s\<in>set demoScored. snd s \<noteq> None) \<longrightarrow> ranked demoScored 5 demoResult"
    by (simp add: demo_get a n demo_query_embed nthOpt_def demo_scored)
  with nn have "ranked demoScored 5 demoResult" by blast
  with demo_retrieve demo_query_trim k demo_scored show ?thesis by simp
qed

text \<open>
  C7: on an empty or white-space-only query \<open>retrieve\<close> returns the empty list and
  leaves the module state as it is: no directory read, no index, no call of the embedding
  provider.
\<close>

theorem blank_query:
  assumes "trim query = []"
  shows "retrieve e query topK w = Some (Inr [], w)"
  using assms by (simp add: retrieve_def)

theorem blank_query_witness:
  "trim [32, 9, 10] = [] \<and> retrieve demoEnv [32, 9, 10] 5 initialWorld = Some (Inr [], initialWorld)"
proof -
  have t: "trim [32, 9, 10] = []" by (simp add: trim_def isWhiteSpace_def)
  from blank_query[OF t] t show ?thesis by simp
qed

section \<open>Response parsing\<close>

lemma demo_is429: "is429 (ustr ''Error: 429 Too Many Requests'')"
  by code_simp

lemma demo_blank_answer: "extractTag (ustr ''<answer> </answer> Five days.'') (ustr ''answer'') = []"
  by code_simp

lemma demo_blank_trim:
  "trim (ustr ''<answer> </answer> Five days.'') = ustr ''<answer> </answer> Five days.''"
  by code_simp

lemma demo_run4:
  "runFailover demoCall [0, 4] = (Inr (ustr ''<answer> </answer> Five days.''), [0, 4])"
  by (simp add: runFailover_def demoCall_def demo_is429 Let_def)

text \<open>
  C10 as stated fails: a provider text of one space is not empty, and its answer is.
\<close>

theorem empty_answer_counterexample:
  "answer (parseResponse [32]) = [] \<and> [32] \<noteq> ([] :: jsstring)"
  by (simp add: parseResponse_def extractTag_def trim_def isWhiteSpace_def ustr_def)

text \<open>
  C10, amended: when the failover loop yields the text \<open>text\<close>, the handler answers;
  if the \<open>answer\<close> tag is missing or its content trims to the empty string, the answer
  is the whole trimmed text; and the answer is empty only if the whole text trims to the
  empty string.
\<close>

theorem answer_fallback:
  assumes "runFailover call chatConfigs = (Inr text, calls)"
  shows "\<exists>resp. POST_generation call chatConfigs chunks = (Inr resp, calls)
           \<and> (extractTag text (ustr ''answer'') = [] \<longrightarrow> answer resp = trim text)
           \<and> (answer resp = [] \<longrightarrow> trim text = [])"
  using assms by (simp add: POST_generation_def parseResponse_def Let_def)

theorem answer_fallback_witness:
  "runFailover demoCall [0, 4] = (Inr (ustr ''<answer> </answer> Five days.''), [0, 4])
   \<and> extractTag (ustr ''<answer> </answer> Five days.'') (ustr ''answer'') = []
   \<and> (\<exists>resp. POST_generation demoCall [0, 4] demoResult = (Inr resp, [0, 4])
          \<and> answer resp = ustr ''<answer> </answer> Five days.'')"
proof -
  from answer_fallback[OF demo_run4, of demoResult] obtain resp where
    r: "POST_generation demoCall [0, 4] demoResult = (Inr resp, [0, 4])"
       "extractTag (ustr ''<answer> </answer> Five days.'') (ustr ''answer'') = []
          \<longrightarrow> answer resp = trim (ustr ''<answer> </answer> Five days.'')"
    by blast
  from r(2) demo_blank_answer demo_blank_trim
  have "answer resp = ustr ''<answer> </answer> Five days.''" by simp
  with r(1) demo_run4 demo_blank_answer show ?thesis by blast
qed

end
